theory Spec2Isabelle
  imports Main "HOL-Library.AList" "HOL-Library.Multiset" "HOL-Library.Word"
begin

section \<open>Post-processing of question-answering logits (tydi\_canine/postproc.py)\<close>

text \<open>
  The module joins three record streams (examples, feature windows, raw results) by a
  shared numeric key, scores answer spans per example, and collects the per-example
  labels into a dictionary. The embedding follows the Python text function by function.

  Conventions of the embedding:
  \<^item> Python integers are \<open>int\<close>; token positions, which the code only produces by
    \<open>enumerate(..., 1)\<close>, are \<open>nat\<close>.
  \<^item> The span scorer is written for logits of an arbitrary linearly ordered type with
    \<open>+\<close> and \<open>-\<close>; the code only compares, adds and subtracts them.
    \<open>get_best_indexes\<close> is written for any type with a \<open><\<close>, and is also run on
    floats with a NaN (\<open>'a pyfloat\<close>), which \<open><\<close> does not order.
  \<^item> A Python \<open>dict\<close> is an association list kept in insertion order:
    \<open>AList.update\<close> overwrites an existing key in place and appends a new key at the
    end, as \<open>d[k] = v\<close> does; \<open>map_of\<close> is the lookup.
  \<^item> An exception is a value \<open>Inl e\<close> of the sum type \<open>error + 'r\<close>.
  \<^item> Only the warnings are kept of the log; \<open>logger.info\<close> lines are left out.
\<close>

subsection \<open>Errors and warnings\<close>

datatype error =
    ValueError string
  | KeyError string
  | IndexError

datatype warning =
    LenMismatch nat nat int
  | NoFeatureFound int
  | NoPredictions int
  | NoPassagePredicted int
  | ExpectedExample
  | NumFailedMatches nat

subsection \<open>Records of the data model\<close>

record candidate =
  plaintext_start_byte :: int
  plaintext_end_byte :: int

record feature =
  unique_ids :: int
  example_index :: int
  language_id :: "int list"
  wp_start_offset :: "int list"
  wp_end_offset :: "int list"

record 'a raw_result =
  unique_id :: int
  start_logits :: "'a list"
  end_logits :: "'a list"
  answer_type_logits :: "'a list"

record span =
  start_byte_offset :: int
  end_byte_offset :: int

record 'a label =
  label_example_id :: int
  language :: string
  passage_answer_index :: nat
  passage_answer_score :: 'a
  minimal_answer :: span
  minimal_answer_score :: 'a
  yes_no_answer :: string

text \<open>
  \<open>ScoreSummary\<close>: the constructor sets every attribute to \<open>None\<close>; the three scores
  are assigned right after construction, \<open>predicted_label\<close> only at the end of
  \<open>compute_predictions\<close>, so it alone is optional here.
\<close>

record 'a score_summary =
  predicted_label :: "'a label option"
  minimal_span_score :: 'a
  cls_token_score :: 'a
  summary_answer_type_logits :: "'a list"

record 'a eval_example =
  example_id :: int
  candidates :: "candidate list"
  results :: "(int \<times> 'a raw_result) list"
  features :: "(int \<times> feature) list"

definition EvalExample :: "int \<Rightarrow> candidate list \<Rightarrow> 'a eval_example" where
  "EvalExample eid cands =
     \<lparr>example_id = eid, candidates = cands, results = [], features = []\<rparr>"

subsection \<open>get\_best\_indexes\<close>

text \<open>
  \<open>sorted\<close> compares the keys with \<open><\<close> and with nothing else, and it is stable:
  no element moves in front of another one unless its key is found smaller. Each element
  is put in front of the sorted rest and goes past the elements whose keys are smaller.
  On keys that \<open><\<close> orders linearly this is the stable sort \<open>sort_key\<close> (lemma
  \<open>sorted_stable_linorder\<close>), the only list a stable sort can return. On other keys
  the list returned by \<open>sorted\<close> depends on the comparisons it makes; a list in which
  no key is smaller than the key before it is one ascending run for \<open>list.sort\<close>, which
  leaves it as it is, and so does this function (lemma \<open>sorted_stable_ascending_run\<close>).
\<close>

fun insert_by_lt :: "('b \<Rightarrow> 'k::ord) \<Rightarrow> 'b \<Rightarrow> 'b list \<Rightarrow> 'b list" where
  "insert_by_lt key x [] = [x]"
| "insert_by_lt key x (y # ys) =
     (if key y < key x then y # insert_by_lt key x ys else x # y # ys)"

definition sorted_stable :: "('b \<Rightarrow> 'k::ord) \<Rightarrow> 'b list \<Rightarrow> 'b list" where
  "sorted_stable key xs = foldr (insert_by_lt key) xs []"

text \<open>
  \<open>sorted(xs, key=k, reverse=True)\<close> keeps elements with equal keys in their original
  order: \<open>list.sort\<close> reverses the list, sorts it ascending and reverses the result.
\<close>

definition sorted_reverse :: "('b \<Rightarrow> 'k::ord) \<Rightarrow> 'b list \<Rightarrow> 'b list" where
  "sorted_reverse key xs = rev (sorted_stable key (rev xs))"

text \<open>The \<open>for i in range(len(index_and_score))\<close> loop with its \<open>break\<close>.\<close>

fun best_loop :: "int \<Rightarrow> nat \<Rightarrow> (nat \<times> 'a) list \<Rightarrow> nat list" where
  "best_loop n_best_size i [] = []"
| "best_loop n_best_size i (p # ps) =
     (if int i \<ge> n_best_size then []
      else fst p # best_loop n_best_size (Suc i) ps)"

definition index_and_score :: "('a::ord) list \<Rightarrow> (nat \<times> 'a) list" where
  "index_and_score logits = sorted_reverse snd (enumerate 1 (drop 1 logits))"

definition get_best_indexes :: "('a::ord) list \<Rightarrow> int \<Rightarrow> nat list" where
  "get_best_indexes logits n_best_size = best_loop n_best_size 0 (index_and_score logits)"

text \<open>
  Python floats: the numbers of a linearly ordered type and NaN. A comparison with NaN
  by \<open><\<close> or \<open><=\<close> is false whatever the other side is.
\<close>

datatype 'a pyfloat = Num 'a | NaN

instantiation pyfloat :: (ord) ord
begin

definition less_pyfloat :: "'a pyfloat \<Rightarrow> 'a pyfloat \<Rightarrow> bool" where
  "less_pyfloat x y = (case (x, y) of (Num a, Num b) \<Rightarrow> a < b | _ \<Rightarrow> False)"

definition less_eq_pyfloat :: "'a pyfloat \<Rightarrow> 'a pyfloat \<Rightarrow> bool" where
  "less_eq_pyfloat x y = (case (x, y) of (Num a, Num b) \<Rightarrow> a \<le> b | _ \<Rightarrow> False)"

instance ..

end

subsection \<open>compute\_predictions\<close>

text \<open>\<open>xs[i]\<close> for a non-negative position: out of range raises \<open>IndexError\<close>.\<close>

definition index_list :: "'b list \<Rightarrow> nat \<Rightarrow> error + 'b" where
  "index_list xs i = (if i < length xs then Inr (xs ! i) else Inl IndexError)"

text \<open>
  The chain of \<open>continue\<close> tests in the body of the double loop: \<open>Inr False\<close> is a
  \<open>continue\<close>, \<open>Inr True\<close> reaches the \<open>predictions.append\<close>.
\<close>

definition span_survives :: "feature \<Rightarrow> int \<Rightarrow> nat \<Rightarrow> nat \<Rightarrow> error + bool" where
  "span_survives f max_answer_length start_index end_index =
     (if end_index < start_index then Inr False
      else case index_list (wp_start_offset f) start_index of
        Inl e \<Rightarrow> Inl e
      | Inr so \<Rightarrow>
          if so = - 1 then Inr False
          else case index_list (wp_end_offset f) end_index of
            Inl e \<Rightarrow> Inl e
          | Inr eo \<Rightarrow>
              if eo = - 1 then Inr False
              else if int end_index - int start_index + 1 > max_answer_length then Inr False
              else Inr True)"

fun end_loop :: "feature \<Rightarrow> int \<Rightarrow> nat \<Rightarrow> nat list \<Rightarrow> error + (nat \<times> nat) list" where
  "end_loop f max_answer_length start_index [] = Inr []"
| "end_loop f max_answer_length start_index (end_index # rest) =
     (case span_survives f max_answer_length start_index end_index of
        Inl e \<Rightarrow> Inl e
      | Inr keep \<Rightarrow>
          (case end_loop f max_answer_length start_index rest of
             Inl e \<Rightarrow> Inl e
           | Inr ps \<Rightarrow> Inr (if keep then (start_index, end_index) # ps else ps)))"

fun start_loop :: "feature \<Rightarrow> int \<Rightarrow> nat list \<Rightarrow> nat list \<Rightarrow> error + (nat \<times> nat) list" where
  "start_loop f max_answer_length [] end_indexes = Inr []"
| "start_loop f max_answer_length (start_index # rest) end_indexes =
     (case end_loop f max_answer_length start_index end_indexes of
        Inl e \<Rightarrow> Inl e
      | Inr ps \<Rightarrow>
          (case start_loop f max_answer_length rest end_indexes of
             Inl e \<Rightarrow> Inl e
           | Inr qs \<Rightarrow> Inr (ps @ qs)))"

type_synonym 'a prediction = "'a \<times> 'a score_summary \<times> string \<times> int \<times> int"

text \<open>The tuple appended for a surviving pair of token positions.\<close>

definition mk_prediction ::
  "('a::{plus,minus}) raw_result \<Rightarrow> feature \<Rightarrow> string \<Rightarrow> 'a \<Rightarrow> nat \<times> nat \<Rightarrow> 'a prediction" where
  "mk_prediction result f language_name cls_score p =
     (let start_index = fst p; end_index = snd p;
          span_score = start_logits result ! start_index + end_logits result ! end_index;
          summary = \<lparr>predicted_label = None,
                     minimal_span_score = span_score,
                     cls_token_score = cls_score,
                     summary_answer_type_logits = answer_type_logits result\<rparr>;
          start_offset = wp_start_offset f ! start_index;
          end_offset = wp_end_offset f ! end_index + 1;
          score = minimal_span_score summary - cls_token_score summary
      in (score, summary, language_name, start_offset, end_offset))"

text \<open>
  The body of \<open>for unique_id, result in eval_example.results.items()\<close>.
  \<open>Language\<close> stands for \<open>data.Language(language_id).name.lower()\<close> of the module
  \<open>tydi_canine.data\<close>, an enumeration: \<open>None\<close> is an identifier it does not have
  (\<open>ValueError\<close>). The outcome \<open>Inr None\<close> is the \<open>return None\<close> for a result
  without feature.
\<close>

definition result_predictions ::
  "(int \<Rightarrow> string option) \<Rightarrow> ('a::{linorder,plus,minus}) eval_example \<Rightarrow> int \<Rightarrow> int \<Rightarrow>
     int \<times> 'a raw_result \<Rightarrow> error + 'a prediction list option" where
  "result_predictions Language eval_example n_best_size max_answer_length item =
     (let uid = fst item; result = snd item in
      case map_of (features eval_example) uid of
        None \<Rightarrow> Inr None
      | Some f \<Rightarrow>
          (case index_list (language_id f) 0 of
             Inl e \<Rightarrow> Inl e
           | Inr lid \<Rightarrow>
               (case Language lid of
                  None \<Rightarrow> Inl (ValueError ''not a valid Language'')
                | Some language_name \<Rightarrow>
                    (let start_indexes = get_best_indexes (start_logits result) n_best_size;
                         end_indexes = get_best_indexes (end_logits result) n_best_size
                     in case index_list (start_logits result) 0 of
                          Inl e \<Rightarrow> Inl e
                        | Inr s0 \<Rightarrow>
                            (case index_list (end_logits result) 0 of
                               Inl e \<Rightarrow> Inl e
                             | Inr e0 \<Rightarrow>
                                 (case start_loop f max_answer_length start_indexes end_indexes of
                                    Inl e \<Rightarrow> Inl e
                                  | Inr pairs \<Rightarrow>
                                      Inr (Some (map (mk_prediction result f language_name (s0 + e0))
                                                   pairs))))))))"

fun results_loop ::
  "(int \<Rightarrow> string option) \<Rightarrow> ('a::{linorder,plus,minus}) eval_example \<Rightarrow> int \<Rightarrow> int \<Rightarrow>
     (int \<times> 'a raw_result) list \<Rightarrow> warning list \<times> (error + 'a prediction list option)" where
  "results_loop Language eval_example n_best_size max_answer_length [] = ([], Inr (Some []))"
| "results_loop Language eval_example n_best_size max_answer_length (item # rest) =
     (case result_predictions Language eval_example n_best_size max_answer_length item of
        Inl e \<Rightarrow> ([], Inl e)
      | Inr None \<Rightarrow> ([NoFeatureFound (fst item)], Inr None)
      | Inr (Some ps) \<Rightarrow>
          (case results_loop Language eval_example n_best_size max_answer_length rest of
             (w, Inr (Some qs)) \<Rightarrow> (w, Inr (Some (ps @ qs)))
           | other \<Rightarrow> other))"

text \<open>\<open>max(predictions, key=lambda x: x[0])\<close>: the first of the maximal elements.\<close>

fun max_first :: "('a::linorder) prediction \<Rightarrow> 'a prediction list \<Rightarrow> 'a prediction" where
  "max_first best [] = best"
| "max_first best (p # ps) = (if fst best < fst p then max_first p ps else max_first best ps)"

text \<open>
  The \<open>for c_ind, c in enumerate(eval_example.candidates)\<close> loop: \<open>Some c_ind\<close> is the
  \<open>break\<close>, \<open>None\<close> the \<open>else\<close> branch of the loop.
\<close>

fun passage_loop :: "nat \<Rightarrow> candidate list \<Rightarrow> span \<Rightarrow> nat option" where
  "passage_loop c_ind [] minimal_span = None"
| "passage_loop c_ind (c # cs) minimal_span =
     (if plaintext_start_byte c \<le> start_byte_offset minimal_span
         \<and> plaintext_end_byte c \<ge> end_byte_offset minimal_span
      then Some c_ind
      else passage_loop (Suc c_ind) cs minimal_span)"

definition mk_label :: "'a eval_example \<Rightarrow> string \<Rightarrow> nat \<Rightarrow> 'a \<Rightarrow> span \<Rightarrow> 'a label" where
  "mk_label eval_example language_name passage_span_index score minimal_span =
     \<lparr>label_example_id = example_id eval_example,
      language = language_name,
      passage_answer_index = passage_span_index,
      passage_answer_score = score,
      minimal_answer = minimal_span,
      minimal_answer_score = score,
      yes_no_answer = ''NONE''\<rparr>"

definition select_prediction ::
  "('a::linorder) eval_example \<Rightarrow> 'a prediction \<Rightarrow> warning list \<times> 'a score_summary" where
  "select_prediction eval_example best =
     (case best of (score, summary, language_name, start_span, end_span) \<Rightarrow>
        (let minimal_span = \<lparr>start_byte_offset = start_span, end_byte_offset = end_span\<rparr> in
         case passage_loop 0 (candidates eval_example) minimal_span of
           Some c_ind \<Rightarrow>
             ([], summary\<lparr>predicted_label :=
                     Some (mk_label eval_example language_name c_ind score minimal_span)\<rparr>)
         | None \<Rightarrow>
             ([NoPassagePredicted (example_id eval_example)],
              summary\<lparr>predicted_label :=
                     Some (mk_label eval_example language_name 0 score minimal_span)\<rparr>)))"

definition compute_predictions ::
  "(int \<Rightarrow> string option) \<Rightarrow> ('a::{linorder,plus,minus}) eval_example \<Rightarrow> int \<Rightarrow> int \<Rightarrow>
     warning list \<times> (error + 'a score_summary option)" where
  "compute_predictions Language eval_example candidate_beam max_answer_length =
     (let n_best_size = candidate_beam in
      if results eval_example = [] then ([], Inr None)
      else if length (features eval_example) \<noteq> length (results eval_example)
      then ([LenMismatch (length (features eval_example)) (length (results eval_example))
               (example_id eval_example)], Inr None)
      else case results_loop Language eval_example n_best_size max_answer_length
                  (results eval_example) of
             (w, Inl e) \<Rightarrow> (w, Inl e)
           | (w, Inr None) \<Rightarrow> (w, Inr None)
           | (w, Inr (Some [])) \<Rightarrow> ([NoPredictions (example_id eval_example)], Inr None)
           | (w, Inr (Some (p # ps))) \<Rightarrow>
               (case select_prediction eval_example (max_first p ps) of
                  (w', summary) \<Rightarrow> (w', Inr (Some summary))))"

subsection \<open>compute\_pred\_dict: the merge-join\<close>

text \<open>
  \<open>np.array(..., dtype="int32")\<close>: the keys of the examples and of the features are
  cast to 32-bit signed integers, which wraps around; the keys of the raw results are
  plain \<open>int(res["unique_id"] + 1)\<close> and are not cast.
\<close>

definition int32 :: "int \<Rightarrow> int" where
  "int32 k = sint (word_of_int k :: 32 word)"

text \<open>
  The payloads of the merged list. The code tells them apart by shape: a tuple is an
  example (\<open>isinstance(datum, tuple)\<close>), a dictionary with the key
  \<open>"wp_start_offset"\<close> is a feature, anything else is a raw result.
\<close>

datatype 'a datum =
    Example "int \<times> candidate list"
  | Feature feature
  | Result "'a raw_result"

record 'a join_state =
  eval_examples :: "'a eval_example list"
  num_failed_matches :: nat
  ex_count :: nat
  feature_count :: nat
  result_count :: nat
  join_log :: "warning list"

definition join_init :: "'a join_state" where
  "join_init = \<lparr>eval_examples = [], num_failed_matches = 0, ex_count = 0,
                 feature_count = 0, result_count = 0, join_log = []\<rparr>"

text \<open>An assignment through \<open>eval_examples[-1]\<close>, on a list known to be non-empty.\<close>

definition update_last :: "('b \<Rightarrow> 'b) \<Rightarrow> 'b list \<Rightarrow> 'b list" where
  "update_last g xs = butlast xs @ [g (last xs)]"

text \<open>
  One iteration of \<open>for step in range(num_merged)\<close>, on the pair popped from the
  front of \<open>merged\<close>.

  The \<open>assert\<close> of the feature branch has the message
  \<open>f"... {datum['unique id']}"\<close>, which Python evaluates when the condition is false.
  A feature has the key \<open>unique_ids\<close> and no key \<open>unique id\<close>, so the exception that
  leaves the function is the \<open>KeyError\<close> of that lookup. (Assertions are taken to be
  enabled.)
\<close>

fun join_step :: "'a join_state \<Rightarrow> int \<times> 'a datum \<Rightarrow> error + 'a join_state" where
  "join_step st (feature_unique_id, Example e) =
     Inr (st\<lparr>ex_count := ex_count st + 1,
             eval_examples := eval_examples st @ [EvalExample (fst e) (snd e)]\<rparr>)"
| "join_step st (feature_unique_id, Feature f) =
     (if eval_examples st = []
      then Inr (st\<lparr>feature_count := feature_count st + 1,
                   join_log := join_log st @ [ExpectedExample],
                   num_failed_matches := num_failed_matches st + 1\<rparr>)
      else if example_id (last (eval_examples st)) \<noteq> example_index f
      then Inl (KeyError ''unique id'')
      else Inr (st\<lparr>feature_count := feature_count st + 1,
                   eval_examples :=
                     update_last (\<lambda>ex. ex\<lparr>features := AList.update feature_unique_id f (features ex)\<rparr>)
                       (eval_examples st)\<rparr>))"
| "join_step st (feature_unique_id, Result r) =
     (if eval_examples st = []
      then Inr (st\<lparr>result_count := result_count st + 1,
                   join_log := join_log st @ [ExpectedExample],
                   num_failed_matches := num_failed_matches st + 1\<rparr>)
      else Inr (st\<lparr>result_count := result_count st + 1,
                   eval_examples :=
                     update_last (\<lambda>ex. ex\<lparr>results := AList.update feature_unique_id r (results ex)\<rparr>)
                       (eval_examples st)\<rparr>))"

fun join_loop :: "'a join_state \<Rightarrow> (int \<times> 'a datum) list \<Rightarrow> error + 'a join_state" where
  "join_loop st [] = Inr st"
| "join_loop st (x # merged) =
     (case join_step st x of
        Inl e \<Rightarrow> Inl e
      | Inr st' \<Rightarrow> join_loop st' merged)"

text \<open>
  The three tagged lists and their stable sort by key (\<open>sorted\<close> is stable, as
  \<open>sort_key\<close> is): among equal keys the examples come first, then the raw results,
  then the features.
\<close>

definition examples_by_id :: "(int \<times> candidate list) list \<Rightarrow> (int \<times> 'a datum) list" where
  "examples_by_id candidates_dict = map (\<lambda>kv. (int32 (fst kv), Example kv)) candidates_dict"

definition raw_results_by_id :: "'a raw_result list \<Rightarrow> (int \<times> 'a datum) list" where
  "raw_results_by_id raw_results = map (\<lambda>res. (unique_id res + 1, Result res)) raw_results"

definition features_by_id :: "feature list \<Rightarrow> (int \<times> 'a datum) list" where
  "features_by_id dev_features = map (\<lambda>f. (int32 (unique_ids f + 1), Feature f)) dev_features"

definition merged_list ::
  "(int \<times> candidate list) list \<Rightarrow> feature list \<Rightarrow> 'a raw_result list \<Rightarrow> (int \<times> 'a datum) list" where
  "merged_list candidates_dict dev_features raw_results =
     sort_key fst (examples_by_id candidates_dict @ raw_results_by_id raw_results
                     @ features_by_id dev_features)"

subsection \<open>compute\_pred\_dict: the pool and the final dictionary\<close>

definition construct_prediction_object ::
  "(int \<Rightarrow> string option) \<Rightarrow> ('a::{linorder,plus,minus}) eval_example \<Rightarrow> int \<Rightarrow> int \<Rightarrow>
     error + (int \<times> 'a label option) option" where
  "construct_prediction_object Language eval_example candidate_beam max_answer_length =
     (case snd (compute_predictions Language eval_example candidate_beam max_answer_length) of
        Inl e \<Rightarrow> Inl e
      | Inr None \<Rightarrow> Inr None
      | Inr (Some summary) \<Rightarrow> Inr (Some (example_id eval_example, predicted_label summary)))"

text \<open>
  \<open>pool.imap_unordered\<close> yields the result of every task once, in the order in which
  the tasks complete. That order is the parameter \<open>completion\<close>, a list of positions of
  \<open>eval_examples\<close>; the pool makes it a permutation of all positions. A task that
  raised re-raises when its result is taken from the iterator.
\<close>

definition imap_unordered :: "nat list \<Rightarrow> ('x \<Rightarrow> 'y) \<Rightarrow> 'x list \<Rightarrow> 'y list" where
  "imap_unordered completion func iterable = map (\<lambda>i. func (iterable ! i)) completion"

fun collect_loop ::
  "(error + (int \<times> 'v) option) list \<Rightarrow> (int \<times> 'v) list \<Rightarrow> error + (int \<times> 'v) list" where
  "collect_loop [] tydi_pred_dict = Inr tydi_pred_dict"
| "collect_loop (Inl e # rest) tydi_pred_dict = Inl e"
| "collect_loop (Inr None # rest) tydi_pred_dict = collect_loop rest tydi_pred_dict"
| "collect_loop (Inr (Some result) # rest) tydi_pred_dict =
     collect_loop rest (AList.update (fst result) (snd result) tydi_pred_dict)"

text \<open>
  The \<open>with multiprocessing.Pool(...)\<close> block. \<open>sys.getsizeof(eval_examples[0])\<close>
  raises \<open>IndexError\<close> on an empty list.
\<close>

definition pool_reduce ::
  "nat list \<Rightarrow> (int \<Rightarrow> string option) \<Rightarrow> int \<Rightarrow> int \<Rightarrow> ('a::{linorder,plus,minus}) eval_example list \<Rightarrow>
     error + (int \<times> 'a label option) list" where
  "pool_reduce completion Language candidate_beam max_answer_length evs =
     (if evs = [] then Inl IndexError
      else collect_loop
             (imap_unordered completion
                (\<lambda>ex. construct_prediction_object Language ex candidate_beam max_answer_length) evs)
             [])"

definition compute_pred_dict ::
  "nat list \<Rightarrow> (int \<Rightarrow> string option) \<Rightarrow> (int \<times> candidate list) list \<Rightarrow> feature list \<Rightarrow>
     ('a::{linorder,plus,minus}) raw_result list \<Rightarrow> int \<Rightarrow> int \<Rightarrow>
     error + (int \<times> 'a label option) list" where
  "compute_pred_dict completion Language candidates_dict dev_features raw_results
       candidate_beam max_answer_length =
     (if (examples_by_id candidates_dict :: (int \<times> 'a datum) list) = []
      then Inl (ValueError ''No examples candidates found.'')
      else case join_loop join_init (merged_list candidates_dict dev_features raw_results) of
             Inl e \<Rightarrow> Inl e
           | Inr st \<Rightarrow>
               pool_reduce completion Language candidate_beam max_answer_length (eval_examples st))"

subsection \<open>The join: what it is to return\<close>

text \<open>
  The examples, the features and the raw results of a merged list, each with its key and
  in the order of the list.
\<close>

fun example_of :: "int \<times> 'a datum \<Rightarrow> (int \<times> int \<times> candidate list) list" where
  "example_of (k, Example e) = [(k, e)]"
| "example_of (k, Feature f) = []"
| "example_of (k, Result r) = []"

fun feature_of :: "int \<times> 'a datum \<Rightarrow> (int \<times> feature) list" where
  "feature_of (k, Example e) = []"
| "feature_of (k, Feature f) = [(k, f)]"
| "feature_of (k, Result r) = []"

fun result_of :: "int \<times> 'a datum \<Rightarrow> (int \<times> 'a raw_result) list" where
  "result_of (k, Example e) = []"
| "result_of (k, Feature f) = []"
| "result_of (k, Result r) = [(k, r)]"

definition examples_in :: "(int \<times> 'a datum) list \<Rightarrow> (int \<times> int \<times> candidate list) list" where
  "examples_in xs = concat (map example_of xs)"

definition features_in :: "(int \<times> 'a datum) list \<Rightarrow> (int \<times> feature) list" where
  "features_in xs = concat (map feature_of xs)"

definition results_in :: "(int \<times> 'a datum) list \<Rightarrow> (int \<times> 'a raw_result) list" where
  "results_in xs = concat (map result_of xs)"

text \<open>
  The three streams as they lie in the merged list: each input tagged with its key and
  sorted by it (lemmas \<open>examples_in_merged\<close>, \<open>features_in_merged\<close>,
  \<open>results_in_merged\<close>).
\<close>

definition keyed_examples :: "(int \<times> candidate list) list \<Rightarrow> (int \<times> int \<times> candidate list) list" where
  "keyed_examples candidates_dict = sort_key fst (map (\<lambda>kv. (int32 (fst kv), kv)) candidates_dict)"



text \<open>
  A dictionary filled by the assignments \<open>d[k] = v\<close> for the pairs of a list, in
  the order of the list.
\<close>

definition dict_of :: "('k \<times> 'v) list \<Rightarrow> ('k \<times> 'v) list" where
  "dict_of kvs = foldl (\<lambda>d kv. AList.update (fst kv) (snd kv) d) [] kvs"

text \<open>
  The range of the \<open>i\<close>-th example among the sorted keys of the examples: from its
  own key up to, and not including, the key of the next example; the range of the last
  example is not bounded above.
\<close>

definition in_range :: "int list \<Rightarrow> nat \<Rightarrow> int \<Rightarrow> bool" where
  "in_range keys i k \<longleftrightarrow> keys ! i \<le> k \<and> (Suc i < length keys \<longrightarrow> k < keys ! Suc i)"

text \<open>
  Join completeness, in the words of the specification: the aggregate of the \<open>i\<close>-th
  example has the id and the candidates of that example, and holds the features and the
  raw results whose keys fall in its range; there is one aggregate for each example, in
  the order of the keys.
\<close>

definition aggregate ::
  "(int \<times> int \<times> candidate list) list \<Rightarrow> (int \<times> feature) list \<Rightarrow> (int \<times> 'a raw_result) list \<Rightarrow>
     nat \<Rightarrow> 'a eval_example" where
  "aggregate es fs rs i =
     \<lparr>example_id = fst (snd (es ! i)),
      candidates = snd (snd (es ! i)),
      results = dict_of (filter (\<lambda>p. in_range (map fst es) i (fst p)) rs),
      features = dict_of (filter (\<lambda>p. in_range (map fst es) i (fst p)) fs)\<rparr>"

definition joined :: "(int \<times> 'a datum) list \<Rightarrow> 'a eval_example list" where
  "joined xs = map (aggregate (examples_in xs) (features_in xs) (results_in xs))
                 [0..<length (examples_in xs)]"






subsection \<open>Concrete inputs\<close>

text \<open>A language table with the single entry \<open>0\<close>, for the runs below.\<close>

definition scenario_Language :: "int \<Rightarrow> string option" where
  "scenario_Language lid = (if lid = 0 then Some ''arabic'' else None)"

text \<open>The end-to-end scenario of the specification: one example, one window.\<close>

definition e2e_feature :: feature where
  "e2e_feature = \<lparr>unique_ids = 0, example_index = 0, language_id = [0],
                   wp_start_offset = [- 1, 0, 5, - 1], wp_end_offset = [- 1, 4, 9, - 1]\<rparr>"

definition e2e_result :: "int raw_result" where
  "e2e_result = \<lparr>unique_id = 0, start_logits = [5, 1, 9, 2], end_logits = [5, 0, 1, 8],
                  answer_type_logits = []\<rparr>"

definition e2e_example :: "int eval_example" where
  "e2e_example = \<lparr>example_id = 0,
                   candidates = [\<lparr>plaintext_start_byte = 0, plaintext_end_byte = 10\<rparr>],
                   results = [(1, e2e_result)], features = [(1, e2e_feature)]\<rparr>"

text \<open>An example without results, and one with two windows but a single result.\<close>

definition no_results_example :: "int eval_example" where
  "no_results_example = e2e_example\<lparr>results := []\<rparr>"

definition mismatch_example :: "int eval_example" where
  "mismatch_example = e2e_example\<lparr>features := [(1, e2e_feature), (2, e2e_feature)]\<rparr>"

text \<open>
  The containment and the fallback scenarios of the specification: one window whose only
  content token spans the bytes 12..19 (winning span \<open>(12, 20)\<close>), respectively
  10..14 (winning span \<open>(10, 15)\<close>).
\<close>

definition containment_example :: "int eval_example" where
  "containment_example =
     \<lparr>example_id = 7,
      candidates = [\<lparr>plaintext_start_byte = 0, plaintext_end_byte = 10\<rparr>,
                    \<lparr>plaintext_start_byte = 10, plaintext_end_byte = 25\<rparr>],
      results = [(8, \<lparr>unique_id = 7, start_logits = [0, 1], end_logits = [0, 1],
                      answer_type_logits = []\<rparr>)],
      features = [(8, \<lparr>unique_ids = 7, example_index = 7, language_id = [0],
                       wp_start_offset = [- 1, 12], wp_end_offset = [- 1, 19]\<rparr>)]\<rparr>"

definition fallback_example :: "int eval_example" where
  "fallback_example =
     \<lparr>example_id = 7,
      candidates = [\<lparr>plaintext_start_byte = 0, plaintext_end_byte = 5\<rparr>],
      results = [(8, \<lparr>unique_id = 7, start_logits = [0, 1], end_logits = [0, 1],
                      answer_type_logits = []\<rparr>)],
      features = [(8, \<lparr>unique_ids = 7, example_index = 7, language_id = [0],
                       wp_start_offset = [- 1, 10], wp_end_offset = [- 1, 14]\<rparr>)]\<rparr>"

text \<open>
  A window whose byte offsets do not ascend with the token positions: token 1 covers the
  bytes 10..14, token 2 the bytes 0..4.
\<close>

definition descending_feature :: feature where
  "descending_feature = \<lparr>unique_ids = 7, example_index = 7, language_id = [0],
                          wp_start_offset = [- 1, 10, 0], wp_end_offset = [- 1, 14, 4]\<rparr>"

definition descending_example :: "int eval_example" where
  "descending_example =
     \<lparr>example_id = 7,
      candidates = [\<lparr>plaintext_start_byte = 0, plaintext_end_byte = 25\<rparr>],
      results = [(8, \<lparr>unique_id = 7, start_logits = [0, 5, 0], end_logits = [0, 0, 5],
                      answer_type_logits = []\<rparr>)],
      features = [(8, descending_feature)]\<rparr>"



text \<open>A feature and a raw result that reach the join before any example.\<close>

definition early_records :: "(int \<times> int datum) list" where
  "early_records = [(1, Feature e2e_feature), (1, Result e2e_result)]"

text \<open>Two aggregates with the example ids 0 and 7, for the runs of the pool.\<close>

definition two_examples :: "int eval_example list" where
  "two_examples = [e2e_example, containment_example]"








section \<open>Properties\<close>

subsection \<open>get\_best\_indexes\<close>

lemma insert_by_lt_linorder:
  fixes key :: "'b \<Rightarrow> 'k::linorder"
  shows "insert_by_lt key x ys = insort_key key x ys"
  by (induction ys) (auto simp: not_less)

lemma sorted_stable_linorder:
  fixes key :: "'b \<Rightarrow> 'k::linorder"
  shows "sorted_stable key xs = sort_key key xs"
proof -
  have "insert_by_lt key = insort_key key"
    by (intro ext) (rule insert_by_lt_linorder)
  then show ?thesis by (simp add: sorted_stable_def sort_key_def)
qed

lemma sorted_reverse_linorder:
  fixes key :: "'b \<Rightarrow> 'k::linorder"
  shows "sorted_reverse key xs = rev (sort_key key (rev xs))"
  by (simp add: sorted_reverse_def sorted_stable_linorder)

lemma sorted_stable_ascending_run:
  "successively (\<lambda>a b. \<not> key b < key a) xs \<Longrightarrow> sorted_stable key xs = xs"
proof (induction xs)
  case Nil
  then show ?case by (simp add: sorted_stable_def)
next
  case (Cons x xs)
  then have rest: "sorted_stable key xs = xs"
    by (cases xs) simp_all
  have "sorted_stable key (x # xs) = insert_by_lt key x (sorted_stable key xs)"
    by (simp add: sorted_stable_def)
  also have "\<dots> = insert_by_lt key x xs" by (simp add: rest)
  also from Cons.prems have "\<dots> = x # xs" by (cases xs) simp_all
  finally show ?case .
qed

lemma best_loop_take: "best_loop n i ps = map fst (take (nat (n - int i)) ps)"
proof (induction ps arbitrary: i)
  case Nil
  then show ?case by simp
next
  case (Cons p ps)
  show ?case
  proof (cases "n \<le> int i")
    case True
    then show ?thesis by simp
  next
    case False
    then have "nat (n - int i) = Suc (nat (n - int (Suc i)))" by simp
    with False Cons show ?thesis by (simp del: of_nat_Suc)
  qed
qed

lemma get_best_indexes_take:
  "get_best_indexes logits n = map fst (take (nat n) (index_and_score logits))"
  by (simp add: get_best_indexes_def best_loop_take)

lemma set_index_and_score:
  fixes logits :: "('a::linorder) list"
  shows "set (index_and_score logits) = {(i, logits ! i) | i. 1 \<le> i \<and> i < length logits}"
  by (auto simp: index_and_score_def sorted_reverse_linorder in_set_enumerate_eq nth_tl drop_Suc)





lemma get_best_indexes_range:
  fixes logits :: "('a::linorder) list"
  shows "p \<in> set (get_best_indexes logits n) \<Longrightarrow> 1 \<le> p \<and> p < length logits"
proof -
  assume "p \<in> set (get_best_indexes logits n)"
  then obtain x where "x \<in> set (take (nat n) (index_and_score logits))" "fst x = p"
    by (auto simp: get_best_indexes_take)
  then have "x \<in> set (index_and_score logits)" "fst x = p"
    by (auto dest: in_set_takeD)
  then show ?thesis by (auto simp: set_index_and_score)
qed


lemma get_best_indexes_start_eval: "get_best_indexes [5, 1, 9, 2 :: int] 2 = [2, 3]"
  by code_simp

lemma get_best_indexes_end_eval: "get_best_indexes [5, 0, 1, 8 :: int] 2 = [3, 2]"
  by code_simp

text \<open>Floats without a NaN are sorted as their numbers are.\<close>

lemma less_Num [simp]: "Num a < Num b \<longleftrightarrow> a < b" "\<not> NaN < x" "\<not> x < NaN"
  by (simp_all add: less_pyfloat_def split: pyfloat.splits)

lemma less_eq_Num [simp]: "Num a \<le> Num b \<longleftrightarrow> a \<le> b" "\<not> NaN \<le> x" "\<not> x \<le> NaN"
  by (simp_all add: less_eq_pyfloat_def split: pyfloat.splits)

















subsection \<open>compute\_pred\_dict: failures of the join\<close>

text \<open>
  Claim C10. With an empty candidates mapping \<open>compute_pred_dict\<close> raises
  \<open>ValueError("No examples candidates found.")\<close>, whatever the features, the raw
  results and the parameters are: nothing is joined or scored and no prediction mapping
  is returned.
\<close>

theorem compute_pred_dict_no_candidates:
  "compute_pred_dict completion Language [] dev_features raw_results candidate_beam max_answer_length
     = Inl (ValueError ''No examples candidates found.'')"
  by (simp add: compute_pred_dict_def examples_by_id_def)

subsection \<open>compute\_predictions: early exits\<close>

text \<open>
  Claim C6, as the code has it. \<open>compute_predictions\<close> returns \<open>None\<close> when the
  example has no results, and when the numbers of features and of results differ. A
  warning is logged in the second case only: on an empty \<open>results\<close> mapping the function
  returns silently.
\<close>

theorem compute_predictions_early_exits:
  "(results ex = [] \<longrightarrow> compute_predictions Language ex candidate_beam max_answer_length = ([], Inr None))
   \<and> (results ex \<noteq> [] \<and> length (features ex) \<noteq> length (results ex) \<longrightarrow>
        compute_predictions Language ex candidate_beam max_answer_length =
          ([LenMismatch (length (features ex)) (length (results ex)) (example_id ex)], Inr None))"
  by (simp add: compute_predictions_def)

theorem compute_predictions_early_exits_witness:
  "results no_results_example = []
   \<and> compute_predictions scenario_Language no_results_example 2 10 = ([], Inr None)
   \<and> results mismatch_example \<noteq> []
   \<and> length (features mismatch_example) \<noteq> length (results mismatch_example)
   \<and> compute_predictions scenario_Language mismatch_example 2 10 = ([LenMismatch 2 1 0], Inr None)"
  using compute_predictions_early_exits [of no_results_example scenario_Language 2 10]
        compute_predictions_early_exits [of mismatch_example scenario_Language 2 10]
  by (simp add: no_results_example_def mismatch_example_def e2e_example_def)

text \<open>
  Claim C6 as stated fails: for the example without results the function returns
  \<open>None\<close> and the log of warnings is empty.
\<close>

theorem no_results_no_warning:
  "results no_results_example = []
   \<and> snd (compute_predictions scenario_Language no_results_example 2 10) = Inr None
   \<and> fst (compute_predictions scenario_Language no_results_example 2 10) = []"
  by (simp add: compute_predictions_def no_results_example_def e2e_example_def)

subsection \<open>compute\_predictions: the surviving pairs and the winner\<close>

lemma span_survives_True:
  "span_survives f m s e = Inr True \<longleftrightarrow>
     s \<le> e \<and> s < length (wp_start_offset f) \<and> wp_start_offset f ! s \<noteq> - 1
     \<and> e < length (wp_end_offset f) \<and> wp_end_offset f ! e \<noteq> - 1
     \<and> int e - int s + 1 \<le> m"
  by (auto simp: span_survives_def index_list_def)

lemma end_loop_pairs:
  "end_loop f m s es = Inr pairs \<Longrightarrow>
     set pairs = {(s, e) | e. e \<in> set es \<and> span_survives f m s e = Inr True}"
proof (induction es arbitrary: pairs)
  case Nil
  then show ?case by simp
next
  case (Cons e es)
  from Cons.prems obtain keep ps where
    k: "span_survives f m s e = Inr keep" and ps: "end_loop f m s es = Inr ps"
    and eq: "pairs = (if keep then (s, e) # ps else ps)"
    by (auto split: sum.splits)
  from Cons.IH[OF ps] k eq show ?case by auto
qed

lemma start_loop_pairs:
  "start_loop f m ss es = Inr pairs \<Longrightarrow>
     set pairs = {(s, e). s \<in> set ss \<and> e \<in> set es \<and> span_survives f m s e = Inr True}"
proof (induction ss arbitrary: pairs)
  case Nil
  then show ?case by simp
next
  case (Cons s ss)
  from Cons.prems obtain ps qs where
    ps: "end_loop f m s es = Inr ps" and qs: "start_loop f m ss es = Inr qs"
    and eq: "pairs = ps @ qs"
    by (auto split: sum.splits)
  from Cons.IH[OF qs] end_loop_pairs[OF ps] eq show ?case by auto
qed

lemma result_predictions_Some:
  assumes "result_predictions L ex n m item = Inr (Some ps)"
  shows "\<exists>f name s0 e0 pairs. map_of (features ex) (fst item) = Some f
     \<and> start_loop f m (get_best_indexes (start_logits (snd item)) n)
           (get_best_indexes (end_logits (snd item)) n) = Inr pairs
     \<and> ps = map (mk_prediction (snd item) f name (s0 + e0)) pairs"
  using assms unfolding result_predictions_def Let_def
  by (auto split: option.splits sum.splits)

lemma results_loop_Some:
  "results_loop L ex n m items = (w, Inr (Some preds)) \<Longrightarrow> p \<in> set preds \<Longrightarrow>
     \<exists>item ps. item \<in> set items \<and> result_predictions L ex n m item = Inr (Some ps) \<and> p \<in> set ps"
proof (induction items arbitrary: w preds)
  case Nil
  then show ?case by simp
next
  case (Cons item items)
  from Cons.prems(1) obtain ps qs where
    ps: "result_predictions L ex n m item = Inr (Some ps)"
    and qs: "results_loop L ex n m items = (w, Inr (Some qs))"
    and eq: "preds = ps @ qs"
    by (auto split: sum.splits option.splits prod.splits)
  from Cons.prems(2) eq consider "p \<in> set ps" | "p \<in> set qs" by auto
  then show ?case
  proof cases
    case 1
    with ps have "item \<in> set (item # items) \<and> result_predictions L ex n m item = Inr (Some ps)
        \<and> p \<in> set ps" by simp
    then show ?thesis by blast
  next
    case 2
    from Cons.IH[OF qs 2] obtain it ps' where "it \<in> set items"
      "result_predictions L ex n m it = Inr (Some ps')" "p \<in> set ps'" by blast
    then have "it \<in> set (item # items) \<and> result_predictions L ex n m it = Inr (Some ps')
        \<and> p \<in> set ps'" by simp
    then show ?thesis by blast
  qed
qed

lemma max_first_mem: "max_first p ps \<in> set (p # ps)"
proof (induction ps arbitrary: p)
  case Nil
  then show ?case by simp
next
  case (Cons a ps)
  show ?case
  proof (cases "fst p < fst a")
    case True
    then have "max_first p (a # ps) = max_first a ps" by simp
    moreover have "max_first a ps \<in> set (a # ps)" by (rule Cons.IH)
    ultimately show ?thesis by (metis list.set_intros(2))
  next
    case False
    then have "max_first p (a # ps) = max_first p ps" by simp
    moreover have "max_first p ps \<in> set (p # ps)" by (rule Cons.IH)
    ultimately show ?thesis by (metis list.set_intros(1,2) set_ConsD)
  qed
qed

lemma max_first_max: "q \<in> set (p # ps) \<Longrightarrow> fst q \<le> fst (max_first p ps)"
proof (induction ps arbitrary: p q)
  case Nil
  then show ?case by simp
next
  case (Cons a ps)
  have mono: "fst x \<le> fst (max_first x ps)" for x
    by (rule Cons.IH) simp
  have tail: "x \<in> set ps \<Longrightarrow> fst x \<le> fst (max_first y ps)" for x y
    by (rule Cons.IH) simp
  from Cons.prems consider "q = p" | "q = a" | "q \<in> set ps" by auto
  then show ?case
  proof cases
    case 1
    show ?thesis
    proof (cases "fst p < fst a")
      case True
      with mono[of a] 1 show ?thesis by simp
    next
      case False
      with mono[of p] 1 show ?thesis by simp
    qed
  next
    case 2
    show ?thesis
    proof (cases "fst p < fst a")
      case True
      with mono[of a] 2 show ?thesis by simp
    next
      case False
      with mono[of p] 2 show ?thesis by simp
    qed
  next
    case 3
    with tail[of q a] tail[of q p] show ?thesis by simp
  qed
qed

lemma compute_predictions_Some:
  assumes "compute_predictions L ex b m = (w, Inr (Some s))"
  shows "\<exists>w0 p ps. results_loop L ex b m (results ex) = (w0, Inr (Some (p # ps)))
          \<and> select_prediction ex (max_first p ps) = (w, s)"
  using assms unfolding compute_predictions_def Let_def
  by (auto split: if_splits prod.splits sum.splits option.splits list.splits)

lemma passage_loop_Some:
  "passage_loop k cs sp = Some i \<Longrightarrow>
     k \<le> i \<and> i - k < length cs
     \<and> plaintext_start_byte (cs ! (i - k)) \<le> start_byte_offset sp
     \<and> end_byte_offset sp \<le> plaintext_end_byte (cs ! (i - k))
     \<and> (\<forall>j < i - k. \<not> (plaintext_start_byte (cs ! j) \<le> start_byte_offset sp
                          \<and> end_byte_offset sp \<le> plaintext_end_byte (cs ! j)))"
proof (induction cs arbitrary: k)
  case Nil
  then show ?case by simp
next
  case (Cons c cs)
  show ?case
  proof (cases "plaintext_start_byte c \<le> start_byte_offset sp \<and> end_byte_offset sp \<le> plaintext_end_byte c")
    case True
    with Cons.prems show ?thesis by auto
  next
    case False
    with Cons.prems have "passage_loop (Suc k) cs sp = Some i" by auto
    from Cons.IH[OF this] have ih: "Suc k \<le> i" "i - Suc k < length cs"
      "plaintext_start_byte (cs ! (i - Suc k)) \<le> start_byte_offset sp"
      "end_byte_offset sp \<le> plaintext_end_byte (cs ! (i - Suc k))"
      "\<forall>j < i - Suc k. \<not> (plaintext_start_byte (cs ! j) \<le> start_byte_offset sp
                          \<and> end_byte_offset sp \<le> plaintext_end_byte (cs ! j))"
      by auto
    from ih(1) have ik: "i - k = Suc (i - Suc k)" by simp
    have "\<forall>j < i - k. \<not> (plaintext_start_byte ((c # cs) ! j) \<le> start_byte_offset sp
                          \<and> end_byte_offset sp \<le> plaintext_end_byte ((c # cs) ! j))"
    proof (intro allI impI)
      fix j assume "j < i - k"
      then show "\<not> (plaintext_start_byte ((c # cs) ! j) \<le> start_byte_offset sp
                          \<and> end_byte_offset sp \<le> plaintext_end_byte ((c # cs) ! j))"
        using False ih(5) ik by (cases j) auto
    qed
    with ih ik show ?thesis by auto
  qed
qed

lemma passage_loop_None:
  "passage_loop k cs sp = None \<longleftrightarrow>
     (\<forall>c \<in> set cs. \<not> (plaintext_start_byte c \<le> start_byte_offset sp
                      \<and> end_byte_offset sp \<le> plaintext_end_byte c))"
  by (induction cs arbitrary: k) auto

subsection \<open>compute\_predictions: the end-to-end scenario\<close>

lemma e2e_pairs: "start_loop e2e_feature 10 [2, 3] [3, 2] = Inr [(2, 2)]"
  by (simp add: e2e_feature_def span_survives_def index_list_def)

text \<open>
  Claim C2 as stated fails: in the end-to-end scenario the pair of token positions
  \<open>(start = 2, end = 3)\<close> is not among the pairs that survive the filters, because
  \<open>wp_end_offset[3]\<close> is the sentinel \<open>-1\<close>; it cannot be the winning pair.
\<close>

theorem e2e_pair_2_3_discarded: "\<not> (\<exists>pairs. start_loop e2e_feature 10 (get_best_indexes (start_logits e2e_result) 2)
            (get_best_indexes (end_logits e2e_result) 2) = Inr pairs \<and> (2, 3) \<in> set pairs)
   \<and> span_survives e2e_feature 10 2 3 = Inr False"
  by (simp add: e2e_result_def get_best_indexes_start_eval get_best_indexes_end_eval e2e_pairs del: start_loop.simps)
     (simp add: e2e_feature_def span_survives_def index_list_def)

lemma e2e_result_predictions:
  "result_predictions scenario_Language e2e_example 2 10 (1, e2e_result) =
      Inr (Some [mk_prediction e2e_result e2e_feature ''arabic'' 10 (2, 2)])"
proof -
  have "map_of (features e2e_example) 1 = Some e2e_feature" by (simp add: e2e_example_def)
  moreover have "get_best_indexes (start_logits e2e_result) 2 = [2, 3]"
      "get_best_indexes (end_logits e2e_result) 2 = [3, 2]"
    by (simp_all add: e2e_result_def get_best_indexes_start_eval get_best_indexes_end_eval)
  moreover have "index_list (language_id e2e_feature) 0 = Inr 0" by (simp add: e2e_feature_def index_list_def)
  moreover have "index_list (start_logits e2e_result) 0 = Inr 5" "index_list (end_logits e2e_result) 0 = Inr 5"
    by (simp_all add: e2e_result_def index_list_def)
  ultimately show ?thesis
    by (simp add: result_predictions_def scenario_Language_def e2e_pairs del: start_loop.simps)
qed

text \<open>
  Claim C2, as the code has it. In the end-to-end scenario the only prediction comes
  from the pair of token positions \<open>(start = 2, end = 2)\<close>; it wins, the byte span is
  \<open>(5, 10)\<close> and \<open>passage_answer_index\<close> is 0.
\<close>

theorem e2e_scenario:
  "result_predictions scenario_Language e2e_example 2 10 (1, e2e_result) =
      Inr (Some [mk_prediction e2e_result e2e_feature ''arabic'' 10 (2, 2)])
   \<and> compute_predictions scenario_Language e2e_example 2 10 =
       ([], Inr (Some \<lparr>predicted_label = Some
            \<lparr>label_example_id = 0, language = ''arabic'',
               passage_answer_index = 0, passage_answer_score = 0,
               minimal_answer = \<lparr>start_byte_offset = 5, end_byte_offset = 10\<rparr>,
               minimal_answer_score = 0, yes_no_answer = ''NONE''\<rparr>,
           minimal_span_score = 10, cls_token_score = 10,
           summary_answer_type_logits = []\<rparr>))"
proof -
  have r: "results e2e_example = [(1, e2e_result)]" "features e2e_example = [(1, e2e_feature)]"
    by (simp_all add: e2e_example_def)
  have m: "mk_prediction e2e_result e2e_feature ''arabic'' 10 (2, 2) =
     (0, \<lparr>predicted_label = None, minimal_span_score = 10, cls_token_score = 10,
           summary_answer_type_logits = []\<rparr>, ''arabic'', 5, 10)"
    by (simp add: mk_prediction_def e2e_result_def e2e_feature_def)
  have s: "select_prediction e2e_example (0, \<lparr>predicted_label = None, minimal_span_score = 10, cls_token_score = 10,
           summary_answer_type_logits = []\<rparr>, ''arabic'', 5, 10) = 
      ([], \<lparr>predicted_label = Some
            \<lparr>label_example_id = 0, language = ''arabic'',
               passage_answer_index = 0, passage_answer_score = 0,
               minimal_answer = \<lparr>start_byte_offset = 5, end_byte_offset = 10\<rparr>,
               minimal_answer_score = 0, yes_no_answer = ''NONE''\<rparr>,
           minimal_span_score = 10, cls_token_score = 10,
           summary_answer_type_logits = []\<rparr>)"
    by (simp add: select_prediction_def e2e_example_def mk_label_def)
  show ?thesis
    by (simp add: compute_predictions_def r e2e_result_predictions m s)
qed

subsection \<open>compute\_predictions: validity of the winning span\<close>

lemma select_prediction_label:
  assumes "select_prediction ex (score, summary, name, ss, es) = (w, s)"
  shows "\<exists>lab. predicted_label s = Some lab
     \<and> minimal_answer lab = \<lparr>start_byte_offset = ss, end_byte_offset = es\<rparr>
     \<and> passage_answer_score lab = score \<and> minimal_answer_score lab = score
     \<and> yes_no_answer lab = ''NONE'' \<and> label_example_id lab = example_id ex
     \<and> (case passage_loop 0 (candidates ex) \<lparr>start_byte_offset = ss, end_byte_offset = es\<rparr> of
          Some c_ind \<Rightarrow> passage_answer_index lab = c_ind \<and> w = []
        | None \<Rightarrow> passage_answer_index lab = 0 \<and> w = [NoPassagePredicted (example_id ex)])"
  using assms unfolding select_prediction_def Let_def mk_label_def
  by (auto split: option.splits)

lemma winner_is_surviving_pair:
  assumes "compute_predictions L ex beam maxlen = (w, Inr (Some s))"
  shows "\<exists>uid result f name cls si ei.
       (uid, result) \<in> set (results ex) \<and> map_of (features ex) uid = Some f
     \<and> si \<in> set (get_best_indexes (start_logits result) beam)
     \<and> ei \<in> set (get_best_indexes (end_logits result) beam)
     \<and> span_survives f maxlen si ei = Inr True
     \<and> select_prediction ex (mk_prediction result f name cls (si, ei)) = (w, s)"
proof -
  from compute_predictions_Some[OF assms] obtain w0 p ps where
    loop: "results_loop L ex beam maxlen (results ex) = (w0, Inr (Some (p # ps)))"
    and sel: "select_prediction ex (max_first p ps) = (w, s)"
    by blast
  have "max_first p ps \<in> set (p # ps)" by (rule max_first_mem)
  from results_loop_Some[OF loop this] obtain item qs where
    item: "item \<in> set (results ex)"
    and rp: "result_predictions L ex beam maxlen item = Inr (Some qs)"
    and mem: "max_first p ps \<in> set qs"
    by blast
  from result_predictions_Some[OF rp] obtain f name s0 e0 pairs where
    f: "map_of (features ex) (fst item) = Some f"
    and sl: "start_loop f maxlen (get_best_indexes (start_logits (snd item)) beam)
           (get_best_indexes (end_logits (snd item)) beam) = Inr pairs"
    and qs: "qs = map (mk_prediction (snd item) f name (s0 + e0)) pairs"
    by blast
  from mem qs obtain pr where pr: "pr \<in> set pairs"
    and mx: "max_first p ps = mk_prediction (snd item) f name (s0 + e0) pr"
    by auto
  from pr start_loop_pairs[OF sl] have
    "fst pr \<in> set (get_best_indexes (start_logits (snd item)) beam)"
    "snd pr \<in> set (get_best_indexes (end_logits (snd item)) beam)"
    "span_survives f maxlen (fst pr) (snd pr) = Inr True"
    by auto
  moreover from item have "(fst item, snd item) \<in> set (results ex)" by simp
  moreover from sel mx have
    "select_prediction ex (mk_prediction (snd item) f name (s0 + e0) (fst pr, snd pr)) = (w, s)"
    by simp
  ultimately show ?thesis using f by blast
qed

text \<open>
  Claim C3, as the code has it. Whenever \<open>compute_predictions\<close> returns a summary, the
  returned byte span comes from a pair of token positions \<open>(si, ei)\<close> of one result and
  its feature, both taken from the beams, with \<open>1 \<le> si \<le> ei\<close>, neither offset entry
  the sentinel \<open>-1\<close>, and a token length \<open>ei - si + 1\<close> of at most
  \<open>max_answer_length\<close>. The order that is checked is the order of the token positions;
  the end byte offset is not less than the start byte offset when the offsets of the
  feature ascend with the token positions.
\<close>

theorem winning_span_valid:
  assumes "compute_predictions L ex beam maxlen = (w, Inr (Some s))"
  shows "\<exists>lab uid result f si ei. predicted_label s = Some lab
     \<and> (uid, result) \<in> set (results ex) \<and> map_of (features ex) uid = Some f
     \<and> si \<in> set (get_best_indexes (start_logits result) beam)
     \<and> ei \<in> set (get_best_indexes (end_logits result) beam)
     \<and> start_byte_offset (minimal_answer lab) = wp_start_offset f ! si
     \<and> end_byte_offset (minimal_answer lab) = wp_end_offset f ! ei + 1
     \<and> 1 \<le> si \<and> si \<le> ei
     \<and> si < length (wp_start_offset f) \<and> ei < length (wp_end_offset f)
     \<and> wp_start_offset f ! si \<noteq> - 1 \<and> wp_end_offset f ! ei \<noteq> - 1
     \<and> int ei - int si + 1 \<le> maxlen
     \<and> ((\<forall>i j. i \<le> j \<and> i < length (wp_start_offset f) \<and> j < length (wp_end_offset f)
               \<and> wp_start_offset f ! i \<noteq> - 1 \<and> wp_end_offset f ! j \<noteq> - 1
               \<longrightarrow> wp_start_offset f ! i \<le> wp_end_offset f ! j + 1)
          \<longrightarrow> start_byte_offset (minimal_answer lab) \<le> end_byte_offset (minimal_answer lab))"
proof -
  from winner_is_surviving_pair[OF assms] obtain uid result f name cls si ei where
    r: "(uid, result) \<in> set (results ex)" and f: "map_of (features ex) uid = Some f"
    and si: "si \<in> set (get_best_indexes (start_logits result) beam)"
    and ei: "ei \<in> set (get_best_indexes (end_logits result) beam)"
    and sv: "span_survives f maxlen si ei = Inr True"
    and sel: "select_prediction ex (mk_prediction result f name cls (si, ei)) = (w, s)"
    by blast
  from sel obtain lab where lab: "predicted_label s = Some lab"
    and sp: "minimal_answer lab =
       \<lparr>start_byte_offset = wp_start_offset f ! si, end_byte_offset = wp_end_offset f ! ei + 1\<rparr>"
    unfolding mk_prediction_def Let_def
    by (auto dest!: select_prediction_label)
  from sv have ok: "si \<le> ei" "si < length (wp_start_offset f)" "wp_start_offset f ! si \<noteq> - 1"
    "ei < length (wp_end_offset f)" "wp_end_offset f ! ei \<noteq> - 1" "int ei - int si + 1 \<le> maxlen"
    by (simp_all add: span_survives_True)
  from si have pos: "1 \<le> si" using get_best_indexes_range by blast
  have sb: "start_byte_offset (minimal_answer lab) = wp_start_offset f ! si"
    and eb: "end_byte_offset (minimal_answer lab) = wp_end_offset f ! ei + 1"
    by (simp_all add: sp)
  have ord: "(\<forall>i j. i \<le> j \<and> i < length (wp_start_offset f) \<and> j < length (wp_end_offset f)
               \<and> wp_start_offset f ! i \<noteq> - 1 \<and> wp_end_offset f ! j \<noteq> - 1
               \<longrightarrow> wp_start_offset f ! i \<le> wp_end_offset f ! j + 1)
          \<longrightarrow> start_byte_offset (minimal_answer lab) \<le> end_byte_offset (minimal_answer lab)"
    using ok sb eb by auto
  from lab r f si ei sb eb pos ok ord show ?thesis by blast
qed

lemma e2e_compute_predictions:
  "compute_predictions scenario_Language e2e_example 2 10 =
       ([], Inr (Some \<lparr>predicted_label = Some
            \<lparr>label_example_id = 0, language = ''arabic'',
               passage_answer_index = 0, passage_answer_score = 0,
               minimal_answer = \<lparr>start_byte_offset = 5, end_byte_offset = 10\<rparr>,
               minimal_answer_score = 0, yes_no_answer = ''NONE''\<rparr>,
           minimal_span_score = 10, cls_token_score = 10,
           summary_answer_type_logits = []\<rparr>))"
  by code_simp

lemma e2e_feature_ascending:
  "\<not> (\<exists>i j. i \<le> j \<and> i < length (wp_start_offset e2e_feature)
        \<and> j < length (wp_end_offset e2e_feature)
        \<and> wp_start_offset e2e_feature ! i \<noteq> - 1 \<and> wp_end_offset e2e_feature ! j \<noteq> - 1
        \<and> \<not> wp_start_offset e2e_feature ! i \<le> wp_end_offset e2e_feature ! j + 1)"
  by (auto simp: e2e_feature_def less_Suc_eq numeral_eq_Suc nth_Cons')

theorem winning_span_valid_witness:
  "compute_predictions scenario_Language e2e_example 2 10 =
       ([], Inr (Some \<lparr>predicted_label = Some
            \<lparr>label_example_id = 0, language = ''arabic'',
               passage_answer_index = 0, passage_answer_score = 0,
               minimal_answer = \<lparr>start_byte_offset = 5, end_byte_offset = 10\<rparr>,
               minimal_answer_score = 0, yes_no_answer = ''NONE''\<rparr>,
           minimal_span_score = 10, cls_token_score = 10,
           summary_answer_type_logits = []\<rparr>))
   \<and> \<not> (\<exists>i j. i \<le> j \<and> i < length (wp_start_offset e2e_feature)
        \<and> j < length (wp_end_offset e2e_feature)
        \<and> wp_start_offset e2e_feature ! i \<noteq> - 1 \<and> wp_end_offset e2e_feature ! j \<noteq> - 1
        \<and> \<not> wp_start_offset e2e_feature ! i \<le> wp_end_offset e2e_feature ! j + 1)
   \<and> (\<exists>uid result f si ei.
        (uid, result) \<in> set (results e2e_example) \<and> map_of (features e2e_example) uid = Some f
      \<and> si \<in> set (get_best_indexes (start_logits result) 2)
      \<and> ei \<in> set (get_best_indexes (end_logits result) 2)
      \<and> (5::int) = wp_start_offset f ! si \<and> (10::int) = wp_end_offset f ! ei + 1
      \<and> 1 \<le> si \<and> si \<le> ei
      \<and> wp_start_offset f ! si \<noteq> - 1 \<and> wp_end_offset f ! ei \<noteq> - 1
      \<and> int ei - int si + 1 \<le> 10)"
  using winning_span_valid[OF e2e_compute_predictions] e2e_compute_predictions e2e_feature_ascending
  by (simp del: One_nat_def) blast

lemma descending_compute_predictions:
  "compute_predictions scenario_Language descending_example 1 10 =
     ([], Inr (Some \<lparr>predicted_label = Some
            \<lparr>label_example_id = 7, language = ''arabic'',
               passage_answer_index = 0, passage_answer_score = 10,
               minimal_answer = \<lparr>start_byte_offset = 10, end_byte_offset = 5\<rparr>,
               minimal_answer_score = 10, yes_no_answer = ''NONE''\<rparr>,
           minimal_span_score = 10, cls_token_score = 0,
           summary_answer_type_logits = []\<rparr>))"
  by code_simp

text \<open>
  Claim C3 as stated fails: for the window whose offsets descend, the scorer returns the
  span \<open>(10, 5)\<close>, whose end byte offset is less than its start byte offset.
\<close>

theorem descending_offsets_span:
  "\<exists>s lab. compute_predictions scenario_Language descending_example 1 10 = ([], Inr (Some s))
     \<and> predicted_label s = Some lab
     \<and> end_byte_offset (minimal_answer lab) < start_byte_offset (minimal_answer lab)"
  by (simp add: descending_compute_predictions)

subsection \<open>compute\_predictions: the passage of the winning span\<close>

lemma containment_compute_predictions:
  "compute_predictions scenario_Language containment_example 1 10 =
     ([], Inr (Some \<lparr>predicted_label = Some
            \<lparr>label_example_id = 7, language = ''arabic'',
               passage_answer_index = 1, passage_answer_score = 2,
               minimal_answer = \<lparr>start_byte_offset = 12, end_byte_offset = 20\<rparr>,
               minimal_answer_score = 2, yes_no_answer = ''NONE''\<rparr>,
           minimal_span_score = 2, cls_token_score = 0,
           summary_answer_type_logits = []\<rparr>))"
  by code_simp

lemma fallback_compute_predictions:
  "compute_predictions scenario_Language fallback_example 1 10 =
     ([NoPassagePredicted 7], Inr (Some \<lparr>predicted_label = Some
            \<lparr>label_example_id = 7, language = ''arabic'',
               passage_answer_index = 0, passage_answer_score = 2,
               minimal_answer = \<lparr>start_byte_offset = 10, end_byte_offset = 15\<rparr>,
               minimal_answer_score = 2, yes_no_answer = ''NONE''\<rparr>,
           minimal_span_score = 2, cls_token_score = 0,
           summary_answer_type_logits = []\<rparr>))"
  by code_simp

lemma passage_index_of_summary:
  assumes "compute_predictions L ex beam maxlen = (w, Inr (Some s))"
  shows "\<exists>lab. predicted_label s = Some lab
     \<and> (case passage_loop 0 (candidates ex) (minimal_answer lab) of
          Some c_ind \<Rightarrow> passage_answer_index lab = c_ind \<and> w = []
        | None \<Rightarrow> passage_answer_index lab = 0 \<and> w = [NoPassagePredicted (example_id ex)])"
proof -
  from compute_predictions_Some[OF assms] obtain w0 p ps where
    sel: "select_prediction ex (max_first p ps) = (w, s)" by blast
  obtain score summary name ss es where mf: "max_first p ps = (score, summary, name, ss, es)"
    by (cases "max_first p ps") auto
  from select_prediction_label[OF sel[unfolded mf]] show ?thesis by auto
qed

text \<open>
  Claim C8. Whenever \<open>compute_predictions\<close> returns a summary, its
  \<open>passage_answer_index\<close> is the position of the first candidate, in list order, whose
  byte range contains the winning span (\<open>plaintext_start_byte \<le> start\<close> and
  \<open>plaintext_end_byte \<ge> end\<close>), and then no warning is logged; when no candidate
  contains the span the index is 0 and the warning is logged. For the candidates
  \<open>[(0, 10), (10, 25)]\<close> and the span \<open>(12, 20)\<close> the loop stops at index 1; for
  \<open>[(0, 5)]\<close> and \<open>(10, 15)\<close> it runs to its \<open>else\<close> branch.
\<close>

theorem passage_answer_index_first_containing:
  "(\<forall>w s. compute_predictions L ex beam maxlen = (w, Inr (Some s)) \<longrightarrow>
      (\<exists>lab. predicted_label s = Some lab \<and>
         (let contains = (\<lambda>c. plaintext_start_byte c \<le> start_byte_offset (minimal_answer lab)
                              \<and> plaintext_end_byte c \<ge> end_byte_offset (minimal_answer lab))
          in if \<exists>c \<in> set (candidates ex). contains c
             then passage_answer_index lab < length (candidates ex)
                  \<and> contains (candidates ex ! passage_answer_index lab)
                  \<and> (\<forall>j < passage_answer_index lab. \<not> contains (candidates ex ! j))
                  \<and> w = []
             else passage_answer_index lab = 0 \<and> w = [NoPassagePredicted (example_id ex)])))
   \<and> passage_loop 0 [\<lparr>plaintext_start_byte = 0, plaintext_end_byte = 10\<rparr>,
                      \<lparr>plaintext_start_byte = 10, plaintext_end_byte = 25\<rparr>]
         \<lparr>start_byte_offset = 12, end_byte_offset = 20\<rparr> = Some 1
   \<and> passage_loop 0 [\<lparr>plaintext_start_byte = 0, plaintext_end_byte = 5\<rparr>]
         \<lparr>start_byte_offset = 10, end_byte_offset = 15\<rparr> = None"
proof (intro conjI allI impI)
  fix w s
  assume run: "compute_predictions L ex beam maxlen = (w, Inr (Some s))"
  from passage_index_of_summary[OF run] obtain lab where
    lab: "predicted_label s = Some lab"
    and idx: "case passage_loop 0 (candidates ex) (minimal_answer lab) of
          Some c_ind \<Rightarrow> passage_answer_index lab = c_ind \<and> w = []
        | None \<Rightarrow> passage_answer_index lab = 0 \<and> w = [NoPassagePredicted (example_id ex)]"
    by blast
  let ?sp = "minimal_answer lab"
  let ?contains = "\<lambda>c. plaintext_start_byte c \<le> start_byte_offset ?sp
                              \<and> plaintext_end_byte c \<ge> end_byte_offset ?sp"
  have "if \<exists>c \<in> set (candidates ex). ?contains c
        then passage_answer_index lab < length (candidates ex)
                  \<and> ?contains (candidates ex ! passage_answer_index lab)
                  \<and> (\<forall>j < passage_answer_index lab. \<not> ?contains (candidates ex ! j))
                  \<and> w = []
        else passage_answer_index lab = 0 \<and> w = [NoPassagePredicted (example_id ex)]"
  proof (cases "passage_loop 0 (candidates ex) ?sp")
    case None
    then have "\<not> (\<exists>c \<in> set (candidates ex). ?contains c)"
      by (simp add: passage_loop_None)
    with None idx show ?thesis by simp
  next
    case (Some i)
    from passage_loop_Some[OF Some] have i: "i < length (candidates ex)"
      "?contains (candidates ex ! i)" "\<forall>j < i. \<not> ?contains (candidates ex ! j)"
      by simp_all
    from i(1,2) have "\<exists>c \<in> set (candidates ex). ?contains c"
      using nth_mem by blast
    with Some idx i show ?thesis by simp
  qed
  with lab show "\<exists>lab. predicted_label s = Some lab \<and>
         (let contains = (\<lambda>c. plaintext_start_byte c \<le> start_byte_offset (minimal_answer lab)
                              \<and> plaintext_end_byte c \<ge> end_byte_offset (minimal_answer lab))
          in if \<exists>c \<in> set (candidates ex). contains c
             then passage_answer_index lab < length (candidates ex)
                  \<and> contains (candidates ex ! passage_answer_index lab)
                  \<and> (\<forall>j < passage_answer_index lab. \<not> contains (candidates ex ! j))
                  \<and> w = []
             else passage_answer_index lab = 0 \<and> w = [NoPassagePredicted (example_id ex)])"
    unfolding Let_def by blast
qed simp_all

theorem passage_answer_index_first_containing_witness:
  "compute_predictions scenario_Language containment_example 1 10 =
     ([], Inr (Some \<lparr>predicted_label = Some
            \<lparr>label_example_id = 7, language = ''arabic'',
               passage_answer_index = 1, passage_answer_score = 2,
               minimal_answer = \<lparr>start_byte_offset = 12, end_byte_offset = 20\<rparr>,
               minimal_answer_score = 2, yes_no_answer = ''NONE''\<rparr>,
           minimal_span_score = 2, cls_token_score = 0,
           summary_answer_type_logits = []\<rparr>))
   \<and> compute_predictions scenario_Language fallback_example 1 10 =
     ([NoPassagePredicted 7], Inr (Some \<lparr>predicted_label = Some
            \<lparr>label_example_id = 7, language = ''arabic'',
               passage_answer_index = 0, passage_answer_score = 2,
               minimal_answer = \<lparr>start_byte_offset = 10, end_byte_offset = 15\<rparr>,
               minimal_answer_score = 2, yes_no_answer = ''NONE''\<rparr>,
           minimal_span_score = 2, cls_token_score = 0,
           summary_answer_type_logits = []\<rparr>))
   \<and> candidates containment_example ! 1 = \<lparr>plaintext_start_byte = 10, plaintext_end_byte = 25\<rparr>
   \<and> \<not> (plaintext_start_byte (candidates containment_example ! 0) \<le> 12
         \<and> plaintext_end_byte (candidates containment_example ! 0) \<ge> 20)
   \<and> \<not> (\<exists>c \<in> set (candidates fallback_example).
           plaintext_start_byte c \<le> 10 \<and> plaintext_end_byte c \<ge> 15)"
proof -
  note gen = passage_answer_index_first_containing[of scenario_Language containment_example 1 10]
             passage_answer_index_first_containing[of scenario_Language fallback_example 1 10]
  have a: "candidates containment_example ! 1 = \<lparr>plaintext_start_byte = 10, plaintext_end_byte = 25\<rparr>"
    by (simp add: containment_example_def)
  have b: "\<not> (plaintext_start_byte (candidates containment_example ! 0) \<le> 12
         \<and> plaintext_end_byte (candidates containment_example ! 0) \<ge> 20)"
    by (simp add: containment_example_def)
  have c: "\<not> (\<exists>c \<in> set (candidates fallback_example).
           plaintext_start_byte c \<le> 10 \<and> plaintext_end_byte c \<ge> 15)"
    by (simp add: fallback_example_def)
  from gen a b c containment_compute_predictions fallback_compute_predictions
  show ?thesis by blast
qed

subsection \<open>The pool: the order of completion\<close>

lemma collect_loop_error:
  "\<exists>r \<in> set rs. isl r \<Longrightarrow> \<exists>e. collect_loop rs d = Inl e"
proof (induction rs d rule: collect_loop.induct)
  case (1 d)
  then show ?case by simp
next
  case (2 e rest d)
  then show ?case by simp
next
  case (3 rest d)
  then show ?case by simp
next
  case (4 result rest d)
  then show ?case by simp
qed

lemma collect_loop_map_of:
  assumes "\<forall>r \<in> set rs. \<not> isl r"
    and "\<forall>k v v'. Inr (Some (k, v)) \<in> set rs \<and> Inr (Some (k, v')) \<in> set rs \<longrightarrow> v = v'"
  shows "\<exists>d'. collect_loop rs d = Inr d'
           \<and> (\<forall>k v. map_of d' k = Some v \<longleftrightarrow>
                  (Inr (Some (k, v)) \<in> set rs
                   \<or> (map_of d k = Some v \<and> (\<forall>v'. Inr (Some (k, v')) \<notin> set rs))))"
  using assms
proof (induction rs d rule: collect_loop.induct)
  case (1 d)
  then show ?case by simp
next
  case (2 e rest d)
  then show ?case by simp
next
  case (3 rest d)
  then have "\<exists>d'. collect_loop rest d = Inr d'
           \<and> (\<forall>k v. map_of d' k = Some v \<longleftrightarrow>
                  (Inr (Some (k, v)) \<in> set rest
                   \<or> (map_of d k = Some v \<and> (\<forall>v'. Inr (Some (k, v')) \<notin> set rest))))"
    by simp
  then show ?case by simp
next
  case (4 result rest d)
  obtain k0 v0 where res: "result = (k0, v0)" by (cases result)
  let ?d = "AList.update k0 v0 d"
  have fun_rest: "\<forall>k v v'. Inr (Some (k, v)) \<in> set rest \<and> Inr (Some (k, v')) \<in> set rest \<longrightarrow> v = v'"
    using "4.prems"(2) by auto
  have uniq: "\<forall>v. Inr (Some (k0, v)) \<in> set rest \<longrightarrow> v = v0"
    using "4.prems"(2) res by auto
  from "4.IH"[OF _ fun_rest] "4.prems"(1) obtain d' where
    d': "collect_loop rest ?d = Inr d'"
    and char: "\<forall>k v. map_of d' k = Some v \<longleftrightarrow>
                  (Inr (Some (k, v)) \<in> set rest
                   \<or> (map_of ?d k = Some v \<and> (\<forall>v'. Inr (Some (k, v')) \<notin> set rest)))"
    by (auto simp: res)
  have "\<forall>k v. map_of d' k = Some v \<longleftrightarrow>
                  (Inr (Some (k, v)) \<in> set (Inr (Some result) # rest)
                   \<or> (map_of d k = Some v \<and> (\<forall>v'. Inr (Some (k, v')) \<notin> set (Inr (Some result) # rest))))"
  proof (intro allI)
    fix k v
    show "map_of d' k = Some v \<longleftrightarrow>
                  (Inr (Some (k, v)) \<in> set (Inr (Some result) # rest)
                   \<or> (map_of d k = Some v \<and> (\<forall>v'. Inr (Some (k, v')) \<notin> set (Inr (Some result) # rest))))"
    proof (cases "k = k0")
      case True
      with char uniq show ?thesis by (auto simp: res update_conv')
    next
      case False
      with char show ?thesis by (auto simp: res update_conv')
    qed
  qed
  with d' show ?case by (simp add: res)
qed


lemma construct_prediction_object_key:
  "construct_prediction_object L ex b m = Inr (Some (k, v)) \<Longrightarrow> k = example_id ex"
  by (auto simp: construct_prediction_object_def split: sum.splits option.splits)

lemma set_imap_unordered:
  "set c = {0..<length xs} \<Longrightarrow> set (imap_unordered c f xs) = f ` set xs"
proof -
  assume c: "set c = {0..<length xs}"
  have "set (imap_unordered c f xs) = (\<lambda>i. f (xs ! i)) ` {0..<length xs}"
    by (simp add: imap_unordered_def c)
  also have "\<dots> = f ` ((\<lambda>i. xs ! i) ` {0..<length xs})"
    by (simp add: image_image)
  also have "(\<lambda>i. xs ! i) ` {0..<length xs} = set xs"
    by (auto simp: set_conv_nth)
  finally show ?thesis .
qed

lemma pool_reduce_error:
  assumes "set c = {0..<length evs}"
    and "\<exists>ex \<in> set evs. isl (construct_prediction_object L ex b m)"
  shows "\<exists>e. pool_reduce c L b m evs = Inl e"
proof (cases "evs = []")
  case True
  then show ?thesis by (simp add: pool_reduce_def)
next
  case False
  from assms have "\<exists>r \<in> set (imap_unordered c (\<lambda>ex. construct_prediction_object L ex b m) evs). isl r"
    by (simp add: set_imap_unordered)
  from collect_loop_error[OF this] False show ?thesis
    by (simp add: pool_reduce_def)
qed

lemma pool_reduce_result:
  assumes c: "set c = {0..<length evs}"
    and ne: "evs \<noteq> []"
    and dist: "distinct (map example_id evs)"
    and ok: "\<forall>ex \<in> set evs. \<not> isl (construct_prediction_object L ex b m)"
  shows "\<exists>d. pool_reduce c L b m evs = Inr d
           \<and> (\<forall>k v. map_of d k = Some v \<longleftrightarrow>
                 (\<exists>ex \<in> set evs. construct_prediction_object L ex b m = Inr (Some (k, v))))"
proof -
  let ?f = "\<lambda>ex. construct_prediction_object L ex b m"
  let ?rs = "imap_unordered c ?f evs"
  have set_rs: "set ?rs = ?f ` set evs"
    using c by (rule set_imap_unordered)
  have noerr: "\<forall>r \<in> set ?rs. \<not> isl r"
    using ok by (simp add: set_rs)
  have inj: "inj_on example_id (set evs)"
    using dist by (simp add: distinct_map)
  have func: "\<forall>k v v'. Inr (Some (k, v)) \<in> set ?rs \<and> Inr (Some (k, v')) \<in> set ?rs \<longrightarrow> v = v'"
  proof (intro allI impI)
    fix k v v'
    assume "Inr (Some (k, v)) \<in> set ?rs \<and> Inr (Some (k, v')) \<in> set ?rs"
    then obtain ex ex' where ex: "ex \<in> set evs" "?f ex = Inr (Some (k, v))"
      and ex': "ex' \<in> set evs" "?f ex' = Inr (Some (k, v'))"
      unfolding set_rs by (metis (no_types, lifting) imageE)
    from ex(2) ex'(2) have "example_id ex = example_id ex'"
      using construct_prediction_object_key by metis
    with inj ex(1) ex'(1) have "ex = ex'" by (simp add: inj_on_def)
    with ex(2) ex'(2) show "v = v'" by simp
  qed
  from collect_loop_map_of[OF noerr func, of "[]"] obtain d where
    d: "collect_loop ?rs [] = Inr d"
    and char: "\<forall>k v. map_of d k = Some v \<longleftrightarrow> Inr (Some (k, v)) \<in> set ?rs"
    by auto
  have "\<forall>k v. map_of d k = Some v \<longleftrightarrow> (\<exists>ex \<in> set evs. ?f ex = Inr (Some (k, v)))"
    using char unfolding set_rs by (metis (no_types, lifting) image_iff)
  with d ne show ?thesis by (simp add: pool_reduce_def)
qed

lemma maps_equal_by_entries:
  assumes "\<forall>k v. m1 k = Some v \<longleftrightarrow> P k v" and "\<forall>k v. m2 k = Some v \<longleftrightarrow> P k v"
  shows "m1 = m2"
proof
  fix k
  show "m1 k = m2 k"
  proof (cases "m1 k")
    case None
    with assms show ?thesis by (metis not_None_eq)
  next
    case (Some v)
    with assms show ?thesis by metis
  qed
qed

text \<open>
  Claim C9. Let the example ids of the aggregates be pairwise distinct (each id is
  produced by one task) and let \<open>c1\<close>, \<open>c2\<close> be two completion orders, permutations
  of the positions of the aggregates. Then either both runs of the pool return a
  dictionary and the two dictionaries are the same mapping, the one that binds the id of
  every aggregate with a prediction to its label, or both runs raise (some task raised,
  or there is no aggregate at all).
\<close>

theorem pool_reduce_order_insensitive:
  assumes dist: "distinct (map example_id evs)"
    and c1: "mset c1 = mset [0..<length evs]"
    and c2: "mset c2 = mset [0..<length evs]"
  shows "(\<exists>d1 d2. pool_reduce c1 L b m evs = Inr d1 \<and> pool_reduce c2 L b m evs = Inr d2
            \<and> map_of d1 = map_of d2
            \<and> (\<forall>k v. map_of d1 k = Some v \<longleftrightarrow>
                 (\<exists>ex \<in> set evs. construct_prediction_object L ex b m = Inr (Some (k, v)))))
       \<or> (\<exists>e1 e2. pool_reduce c1 L b m evs = Inl e1 \<and> pool_reduce c2 L b m evs = Inl e2)"
proof -
  from c1 have s1: "set c1 = {0..<length evs}" by (metis mset_eq_setD set_upt)
  from c2 have s2: "set c2 = {0..<length evs}" by (metis mset_eq_setD set_upt)
  show ?thesis
  proof (cases "evs = [] \<or> (\<exists>ex \<in> set evs. isl (construct_prediction_object L ex b m))")
    case True
    then have "(\<exists>e1. pool_reduce c1 L b m evs = Inl e1) \<and> (\<exists>e2. pool_reduce c2 L b m evs = Inl e2)"
    proof
      assume "evs = []"
      then show ?thesis by (simp add: pool_reduce_def)
    next
      assume "\<exists>ex \<in> set evs. isl (construct_prediction_object L ex b m)"
      with pool_reduce_error[OF s1] pool_reduce_error[OF s2] show ?thesis by blast
    qed
    then show ?thesis by blast
  next
    case False
    then have ne: "evs \<noteq> []" and ok: "\<forall>ex \<in> set evs. \<not> isl (construct_prediction_object L ex b m)"
      by auto
    from pool_reduce_result[OF s1 ne dist ok] obtain d1 where
      d1: "pool_reduce c1 L b m evs = Inr d1"
      and ch1: "\<forall>k v. map_of d1 k = Some v \<longleftrightarrow>
                 (\<exists>ex \<in> set evs. construct_prediction_object L ex b m = Inr (Some (k, v)))"
      by blast
    from pool_reduce_result[OF s2 ne dist ok] obtain d2 where
      d2: "pool_reduce c2 L b m evs = Inr d2"
      and ch2: "\<forall>k v. map_of d2 k = Some v \<longleftrightarrow>
                 (\<exists>ex \<in> set evs. construct_prediction_object L ex b m = Inr (Some (k, v)))"
      by blast
    from ch1 ch2 have "map_of d1 = map_of d2" by (rule maps_equal_by_entries)
    with d1 d2 ch1 show ?thesis by blast
  qed
qed

lemma two_examples_in_order:
  "pool_reduce [0, 1] scenario_Language 2 10 two_examples =
     Inr [(0, Some \<lparr>label_example_id = 0, language = ''arabic'',
              passage_answer_index = 0, passage_answer_score = 0,
              minimal_answer = \<lparr>start_byte_offset = 5, end_byte_offset = 10\<rparr>,
              minimal_answer_score = 0, yes_no_answer = ''NONE''\<rparr>),
          (7, Some \<lparr>label_example_id = 7, language = ''arabic'',
              passage_answer_index = 1, passage_answer_score = 2,
              minimal_answer = \<lparr>start_byte_offset = 12, end_byte_offset = 20\<rparr>,
              minimal_answer_score = 2, yes_no_answer = ''NONE''\<rparr>)]"
  by code_simp

lemma two_examples_reversed:
  "pool_reduce [1, 0] scenario_Language 2 10 two_examples =
     Inr [(7, Some \<lparr>label_example_id = 7, language = ''arabic'',
              passage_answer_index = 1, passage_answer_score = 2,
              minimal_answer = \<lparr>start_byte_offset = 12, end_byte_offset = 20\<rparr>,
              minimal_answer_score = 2, yes_no_answer = ''NONE''\<rparr>),
          (0, Some \<lparr>label_example_id = 0, language = ''arabic'',
              passage_answer_index = 0, passage_answer_score = 0,
              minimal_answer = \<lparr>start_byte_offset = 5, end_byte_offset = 10\<rparr>,
              minimal_answer_score = 0, yes_no_answer = ''NONE''\<rparr>)]"
  by code_simp

theorem pool_reduce_order_insensitive_witness:
  "distinct (map example_id two_examples)
   \<and> mset [0, 1] = mset [0..<length two_examples]
   \<and> mset [1, 0] = mset [0..<length two_examples]
   \<and> pool_reduce [0, 1] scenario_Language 2 10 two_examples
       \<noteq> pool_reduce [1, 0] scenario_Language 2 10 two_examples
   \<and> (\<exists>d1 d2. pool_reduce [0, 1] scenario_Language 2 10 two_examples = Inr d1
         \<and> pool_reduce [1, 0] scenario_Language 2 10 two_examples = Inr d2
         \<and> map_of d1 = map_of d2)"
proof -
  have d: "distinct (map example_id two_examples)"
    by (simp add: two_examples_def e2e_example_def containment_example_def)
  have p1: "mset [0, 1] = mset [0..<length two_examples]"
    by (simp add: two_examples_def upt_rec)
  have p2: "mset [1, 0] = mset [0..<length two_examples]"
    by (simp add: two_examples_def upt_rec)
  have ne: "pool_reduce [0, 1] scenario_Language 2 10 two_examples
       \<noteq> pool_reduce [1, 0] scenario_Language 2 10 two_examples"
    unfolding two_examples_in_order two_examples_reversed by simp
  have "\<not> (\<exists>e1. pool_reduce [0, 1] scenario_Language 2 10 two_examples = Inl e1)"
    unfolding two_examples_in_order by simp
  with pool_reduce_order_insensitive[OF d p1 p2, of scenario_Language 2 10]
  have "\<exists>d1 d2. pool_reduce [0, 1] scenario_Language 2 10 two_examples = Inr d1
         \<and> pool_reduce [1, 0] scenario_Language 2 10 two_examples = Inr d2
         \<and> map_of d1 = map_of d2"
    by blast
  with d p1 p2 ne show ?thesis by blast
qed

subsection \<open>The join: records joined to another example\<close>








subsection \<open>The join: records before the first example\<close>





lemma early_records_then_example:
  "join_loop join_init (early_records @ [(5, Example (5, []))]) =
     Inr \<lparr>eval_examples = [EvalExample 5 []], num_failed_matches = 2, ex_count = 1,
          feature_count = 1, result_count = 1,
          join_log = [ExpectedExample, ExpectedExample]\<rparr>"
  by code_simp


subsection \<open>The join: completeness\<close>







lemma examples_in_append [simp]: "examples_in (xs @ ys) = examples_in xs @ examples_in ys"
  by (simp add: examples_in_def)

lemma features_in_append [simp]: "features_in (xs @ ys) = features_in xs @ features_in ys"
  by (simp add: features_in_def)

lemma results_in_append [simp]: "results_in (xs @ ys) = results_in xs @ results_in ys"
  by (simp add: results_in_def)

lemma examples_in_single [simp]: "examples_in [x] = example_of x"
  by (simp add: examples_in_def)

lemma features_in_single [simp]: "features_in [x] = feature_of x"
  by (simp add: features_in_def)

lemma results_in_single [simp]: "results_in [x] = result_of x"
  by (simp add: results_in_def)





lemma dict_of_Nil [simp]: "dict_of [] = []"
  by (simp add: dict_of_def)







lemma update_last_length [simp]: "length (update_last g ys) = Suc (length ys - 1)"
  by (simp add: update_last_def)








lemma joined_snoc_no_example:
  "examples_in xs = [] \<Longrightarrow> example_of x = [] \<Longrightarrow> joined (xs @ [x]) = []"
  by (simp add: joined_def)

lemma joined_Nil [simp]: "joined [] = []"
  by (simp add: joined_def examples_in_def)


lemma sort_key_append:
  "sort_key f (ys @ zs) = foldr (insort_key f) ys (sort_key f zs)"
  by (induction ys) simp_all

lemma concat_map_insort:
  fixes g :: "int \<times> 'd \<Rightarrow> (int \<times> 'p) list"
  assumes key: "\<And>x p. p \<in> set (g x) \<Longrightarrow> fst p = fst x"
    and short: "\<And>x. length (g x) \<le> 1"
  shows "sorted (map fst xs) \<Longrightarrow>
     concat (map g (insort_key fst x xs)) = foldr (insort_key fst) (g x) (concat (map g xs))"
proof (induction xs)
  case Nil
  have "g x = [] \<or> (\<exists>p. g x = [p])"
    using short[of x] by (cases "g x") (auto simp: le_Suc_eq)
  then show ?case by auto
next
  case (Cons a xs)
  from Cons.prems have sorted: "sorted (map fst xs)" and low: "\<forall>y \<in> set xs. fst a \<le> fst y"
    by simp_all
  consider "g x = []" | p where "g x = [p]"
    using short[of x] by (cases "g x") (auto simp: le_Suc_eq)
  then show ?case
  proof cases
    case 1
    show ?thesis
    proof (cases "fst x \<le> fst a")
      case True
      then show ?thesis by (simp add: 1)
    next
      case False
      then show ?thesis using Cons.IH[OF sorted] by (simp add: 1)
    qed
  next
    case 2
    then have px: "fst p = fst x" using key[of p x] by simp
    consider "g a = []" | q where "g a = [q]"
      using short[of a] by (cases "g a") (auto simp: le_Suc_eq)
    then show ?thesis
    proof cases
      case 1
      show ?thesis
      proof (cases "fst x \<le> fst a")
        case True
        have "\<forall>q \<in> set (concat (map g xs)). fst p \<le> fst q"
        proof
          fix q assume "q \<in> set (concat (map g xs))"
          then obtain y where "y \<in> set xs" "q \<in> set (g y)" by auto
          with key low True px show "fst p \<le> fst q" by fastforce
        qed
        then have "insort_key fst p (concat (map g xs)) = p # concat (map g xs)"
          by (rule insort_is_Cons)
        with True show ?thesis by (simp add: 1 2)
      next
        case False
        then show ?thesis using Cons.IH[OF sorted] by (simp add: 1 2)
      qed
    next
      case (2 q)
      then have qa: "fst q = fst a" using key[of q a] by simp
      show ?thesis
      proof (cases "fst x \<le> fst a")
        case True
        then show ?thesis by (simp add: 2 \<open>g x = [p]\<close> px qa)
      next
        case False
        then show ?thesis using Cons.IH[OF sorted] by (simp add: 2 \<open>g x = [p]\<close> px qa)
      qed
    qed
  qed
qed

lemma concat_map_sort_key:
  fixes g :: "int \<times> 'd \<Rightarrow> (int \<times> 'p) list"
  assumes key: "\<And>x p. p \<in> set (g x) \<Longrightarrow> fst p = fst x"
    and short: "\<And>x. length (g x) \<le> 1"
  shows "concat (map g (sort_key fst xs)) = sort_key fst (concat (map g xs))"
proof (induction xs)
  case Nil
  then show ?case by simp
next
  case (Cons x xs)
  have "concat (map g (sort_key fst (x # xs)))
      = foldr (insort_key fst) (g x) (concat (map g (sort_key fst xs)))"
    using concat_map_insort[of g "sort_key fst xs" x, OF key short] by simp
  also have "\<dots> = foldr (insort_key fst) (g x) (sort_key fst (concat (map g xs)))"
    by (simp add: Cons.IH)
  also have "\<dots> = sort_key fst (concat (map g (x # xs)))"
    by (simp add: sort_key_append)
  finally show ?case .
qed

lemma example_of_key: "p \<in> set (example_of x) \<Longrightarrow> fst p = fst x"
  by (cases x rule: example_of.cases) auto



lemma example_of_short: "length (example_of x) \<le> 1"
  by (cases x rule: example_of.cases) auto



lemma examples_in_tagged:
  "examples_in (examples_by_id c) = map (\<lambda>kv. (int32 (fst kv), kv)) c"
  "examples_in (raw_results_by_id r) = []"
  "examples_in (features_by_id f) = []"
  by (induction c, simp_all add: examples_in_def examples_by_id_def)
     (induction r, simp_all add: raw_results_by_id_def,
      induction f, simp_all add: features_by_id_def)



lemma examples_in_Cons [simp]: "examples_in (x # xs) = example_of x @ examples_in xs"
  by (simp add: examples_in_def)

lemma examples_in_merged:
  "examples_in (merged_list c f r) = keyed_examples c"
proof -
  have "examples_in (merged_list c f r)
      = sort_key fst (examples_in (examples_by_id c @ raw_results_by_id r @ features_by_id f))"
    unfolding merged_list_def examples_in_def
    by (rule concat_map_sort_key[OF example_of_key example_of_short])
  then show ?thesis by (simp add: examples_in_tagged keyed_examples_def)
qed



















subsection \<open>The join: the example ids of the aggregates\<close>

text \<open>
  The aggregates returned by the join carry the keys of \<open>candidates_dict\<close>, one
  aggregate for each key; the keys of a Python dictionary are pairwise distinct, and so
  are the example ids of the aggregates that are handed to the pool.
\<close>

lemma example_id_update_last:
  assumes "xs \<noteq> []" and "\<And>x. example_id (g x) = example_id x"
  shows "map example_id (update_last g xs) = map example_id xs"
proof -
  from assms(1) have "xs = butlast xs @ [last xs]" by simp
  then have "map example_id xs = map example_id (butlast xs) @ [example_id (last xs)]"
    by (metis list.simps(8,9) map_append)
  then show ?thesis by (simp add: update_last_def assms(2))
qed

lemma join_step_example_ids:
  assumes "join_step st x = Inr st'"
  shows "map example_id (eval_examples st') =
           map example_id (eval_examples st) @ map (fst \<circ> snd) (example_of x)"
proof -
  obtain k d where x: "x = (k, d)" by (cases x)
  show ?thesis
  proof (cases d)
    case (Example e)
    with assms x show ?thesis by (auto simp: EvalExample_def)
  next
    case (Feature f)
    with assms x show ?thesis
      by (auto simp: example_id_update_last split: if_splits)
  next
    case (Result r)
    with assms x show ?thesis
      by (auto simp: example_id_update_last split: if_splits)
  qed
qed

lemma join_loop_example_ids:
  assumes "join_loop st xs = Inr st'"
  shows "map example_id (eval_examples st') =
           map example_id (eval_examples st) @ map (fst \<circ> snd) (examples_in xs)"
  using assms
proof (induction xs arbitrary: st)
  case Nil
  then show ?case by (simp add: examples_in_def)
next
  case (Cons x xs)
  from Cons.prems obtain st1 where step: "join_step st x = Inr st1"
    and loop: "join_loop st1 xs = Inr st'"
    by (cases "join_step st x") simp_all
  from Cons.IH[OF loop] join_step_example_ids[OF step] show ?case
    by simp
qed

lemma join_example_ids_distinct:
  assumes "distinct (map fst candidates_dict)"
    and "join_loop join_init (merged_list candidates_dict dev_features raw_results) = Inr st"
  shows "distinct (map example_id (eval_examples st))"
proof -
  from join_loop_example_ids[OF assms(2)]
  have ids: "map example_id (eval_examples st) = map (fst \<circ> snd) (keyed_examples candidates_dict)"
    by (simp add: join_init_def examples_in_merged)
  have "mset (keyed_examples candidates_dict)
          = mset (map (\<lambda>kv. (int32 (fst kv), kv)) candidates_dict)"
    by (simp add: keyed_examples_def)
  then have "mset (map (fst \<circ> snd) (keyed_examples candidates_dict))
          = mset (map (fst \<circ> snd) (map (\<lambda>kv. (int32 (fst kv), kv)) candidates_dict))"
    by (simp only: mset_map)
  also have "\<dots> = mset (map fst candidates_dict)"
    by (simp add: comp_def)
  finally have "distinct (map (fst \<circ> snd) (keyed_examples candidates_dict))
                  \<longleftrightarrow> distinct (map fst candidates_dict)"
    by (rule mset_eq_imp_distinct_iff)
  with assms(1) ids show ?thesis by simp
qed

end
